theory Spec2Isabelle
  imports Main
begin

section \<open>Python values used by the notebook\<close>

text \<open>
  The notebook \<^verbatim>\<open>savedata.ipynb\<close> raises no exception of its own; the ones below are
  the built-in exceptions its statements can raise. A computation that may raise returns
  \<open>Inl\<close> of the exception, a computation that succeeds returns \<open>Inr\<close> of its value.
\<close>

datatype error = IndexError | KeyError | NameError | IOError

type_synonym 'a result = "error + 'a"

text \<open>
  A \<^verbatim>\<open>datetime.date\<close> is represented by its proleptic Gregorian ordinal (what
  \<^verbatim>\<open>date.toordinal()\<close> returns): dates are ordered as their ordinals are, the
  difference of two dates is the \<^verbatim>\<open>timedelta\<close> whose \<^verbatim>\<open>days\<close> is the difference of the
  ordinals, and adding a \<^verbatim>\<open>timedelta\<close> adds its days to the ordinal.
\<close>

type_synonym date = int

datatype timedelta = timedelta (days: int)

definition date_add :: "date \<Rightarrow> timedelta \<Rightarrow> date" where
  "date_add d t = d + days t"

definition date_sub :: "date \<Rightarrow> date \<Rightarrow> timedelta" where
  "date_sub d1 d2 = timedelta (d1 - d2)"

text \<open>
  The ordinal of the calendar date \<^verbatim>\<open>date(year, month, day)\<close>, as the \<^verbatim>\<open>datetime\<close> module
  computes it; used to write concrete dates.
\<close>

definition is_leap :: "int \<Rightarrow> bool" where
  "is_leap year =
     (if year mod 4 = 0 then (if year mod 100 = 0 then year mod 400 = 0 else True) else False)"

definition days_before_year :: "int \<Rightarrow> int" where
  "days_before_year year =
     (let y = year - 1 in y * 365 + y div 4 - y div 100 + y div 400)"

definition days_before_month :: "int \<Rightarrow> nat \<Rightarrow> int" where
  "days_before_month year month =
     [0, 0, 31, 59, 90, 120, 151, 181, 212, 243, 273, 304, 334] ! month
       + (if 2 < month \<and> is_leap year then 1 else 0)"

definition ymd :: "int \<Rightarrow> nat \<Rightarrow> int \<Rightarrow> date" where
  "ymd year month day = days_before_year year + days_before_month year month + day"

text \<open>\<^verbatim>\<open>range(n)\<close>: the integers from 0 up to but not including \<open>n\<close>; empty when \<open>n \<le> 0\<close>.\<close>

definition range_py :: "int \<Rightarrow> int list" where
  "range_py n = [0..n - 1]"

text \<open>
  \<^verbatim>\<open>xs[i]\<close> on a list: a negative index counts from the end, an index outside the
  list raises \<^verbatim>\<open>IndexError\<close>.
\<close>

definition subscript :: "'a list \<Rightarrow> int \<Rightarrow> 'a result" where
  "subscript xs i =
     (let k = (if i < 0 then i + int (length xs) else i)
      in if k < 0 \<or> int (length xs) \<le> k then Inl IndexError else Inr (xs ! nat k))"

section \<open>The gap checker\<close>

text \<open>
  \<^verbatim>\<open>
  def find_missing_dates(dates):
      dates_list = list(dates)
      start, end = dates_list[0], dates_list[-1]
      completed_dates = set(start + timedelta(x) for x in range((end - start).days))
      missing = set(dates_list) - completed_dates
      return sorted(missing)
  \<close>
  Every date \<open>start + x\<close> built for \<open>completed_dates\<close> lies between two dates of the
  input, so the addition cannot leave the range of \<^verbatim>\<open>datetime.date\<close>.
\<close>

definition find_missing_dates :: "date list \<Rightarrow> date list result" where
  "find_missing_dates dates =
     (let dates_list = dates in
      case subscript dates_list 0 of
        Inl e \<Rightarrow> Inl e
      | Inr start \<Rightarrow>
          (case subscript dates_list (- 1) of
             Inl e \<Rightarrow> Inl e
           | Inr end' \<Rightarrow>
               (let completed_dates =
                      set (map (\<lambda>x. date_add start (timedelta x))
                             (range_py (days (date_sub end' start))));
                    missing = set dates_list - completed_dates
                in Inr (sorted_list_of_set missing))))"

text \<open>
  The gap checker as the specification words it: the complete range from the first date
  up to but not including the last one, minus the supplied dates, sorted.
\<close>

definition spec_find_missing_dates :: "date list \<Rightarrow> date list result" where
  "spec_find_missing_dates dates =
     (case dates of
        [] \<Rightarrow> Inl IndexError
      | first # _ \<Rightarrow>
          Inr (sorted_list_of_set (set [first..last dates - 1] - set dates)))"

section \<open>Station series\<close>

text \<open>
  A station's series is a \<^verbatim>\<open>DataFrame\<close> of daily measurements: the column names and the
  rows in order, each row a measurement date and the remaining fields. The type \<open>'v\<close> of
  the fields is left open. \<^verbatim>\<open>data.mess_datum\<close> is the column of dates.
\<close>

record 'v dataframe =
  columns :: "string list"
  rows :: "(date \<times> 'v list) list"

definition mess_datum :: "'v dataframe \<Rightarrow> date list" where
  "mess_datum df = map fst (rows df)"

text \<open>
  A \<^verbatim>\<open>dict\<close> is the list of its items in iteration order, its keys pairwise different.
  \<^verbatim>\<open>d.keys()\<close> lists the keys, \<^verbatim>\<open>d[k]\<close> raises \<^verbatim>\<open>KeyError\<close> for an absent key.
\<close>

type_synonym ('k, 'a) dict = "('k \<times> 'a) list"

definition dict_keys :: "('k, 'a) dict \<Rightarrow> 'k list" where
  "dict_keys d = map fst d"

definition dict_getitem :: "('k, 'a) dict \<Rightarrow> 'k \<Rightarrow> 'a result" where
  "dict_getitem d k = (case map_of d k of None \<Rightarrow> Inl KeyError | Some v \<Rightarrow> Inr v)"

text \<open>\<^verbatim>\<open>str(i)\<close> of an integer, which is also what \<^verbatim>\<open>'%d' % i\<close> formats: its decimal digits.\<close>

definition digit :: "nat \<Rightarrow> char" where
  "digit n = ''0123456789'' ! n"

fun str_nat :: "nat \<Rightarrow> string" where
  "str_nat n = (if n < 10 then [digit n] else str_nat (n div 10) @ [digit (n mod 10)])"

declare str_nat.simps [simp del]

definition str :: "int \<Rightarrow> string" where
  "str i = (if i < 0 then CHR ''-'' # str_nat (nat (- i)) else str_nat (nat i))"

section \<open>The exporter\<close>

text \<open>
  The file system maps a path to the delimited file stored there. A file is described by
  what \<^verbatim>\<open>to_csv\<close> was asked to write: the delimiter, the header row (if any), whether a
  column of row indices precedes the fields, and the rows in order. \<open>can_write\<close> tells
  for which paths opening the file for writing succeeds.
\<close>

record 'v csv_file =
  delimiter :: string
  header :: "string list option"
  index_column :: bool
  records :: "(date \<times> 'v list) list"

record 'v filesystem =
  files :: "string \<rightharpoonup> 'v csv_file"
  can_write :: "string \<Rightarrow> bool"

text \<open>
  Modelled from the spec: \<^verbatim>\<open>DataFrame.to_csv\<close> is the library's method and not part of the
  notebook. The specification's exporter writes one delimited text file at the given path,
  with a header row (the call leaves \<^verbatim>\<open>header\<close> at its default) and with the index column
  only if \<^verbatim>\<open>index\<close> is set; a write that fails raises and is not retried. The call passes
  all of the frame's columns, so every field of a row is written.
\<close>

definition to_csv ::
  "'v dataframe \<Rightarrow> string \<Rightarrow> string \<Rightarrow> string list \<Rightarrow> bool \<Rightarrow> 'v filesystem
     \<Rightarrow> unit result \<times> 'v filesystem" where
  "to_csv df path_or_buf sep cols index fs =
     (if can_write fs path_or_buf
      then (Inr (),
            fs\<lparr>files := (files fs)(path_or_buf \<mapsto>
                 \<lparr>delimiter = sep, header = Some cols, index_column = index,
                  records = rows df\<rparr>)\<rparr>)
      else (Inl IOError, fs))"

text \<open>
  \<^verbatim>\<open>
  def save_data(datadict, path = './data/'):
      for id_i in datadict.keys():
          name = 'station_' + str(id_i)
          full_path = path + name
          data = datadict[id_i]
          data.to_csv(full_path, sep = ';', columns = data.columns, index = False,)
  \<close>
  The loop is a recursion over the keys; an exception ends it and leaves the files written
  so far. The function has no \<^verbatim>\<open>return\<close>: its value is \<^verbatim>\<open>None\<close>, here \<open>()\<close>.
\<close>

fun save_data_loop ::
  "int list \<Rightarrow> (int, 'v dataframe) dict \<Rightarrow> string \<Rightarrow> 'v filesystem
     \<Rightarrow> unit result \<times> 'v filesystem" where
  "save_data_loop [] datadict path fs = (Inr (), fs)"
| "save_data_loop (id_i # ids) datadict path fs =
     (let name = ''station_'' @ str id_i;
          full_path = path @ name
      in case dict_getitem datadict id_i of
           Inl e \<Rightarrow> (Inl e, fs)
         | Inr data \<Rightarrow>
             (let (r, fs') = to_csv data full_path '';'' (columns data) False fs
              in case r of
                   Inl e \<Rightarrow> (Inl e, fs')
                 | Inr _ \<Rightarrow> save_data_loop ids datadict path fs'))"

definition save_data ::
  "(int, 'v dataframe) dict \<Rightarrow> string \<Rightarrow> 'v filesystem \<Rightarrow> unit result \<times> 'v filesystem" where
  "save_data datadict path fs = save_data_loop (dict_keys datadict) datadict path fs"

section \<open>The reporting loop\<close>

text \<open>
  \<^verbatim>\<open>
  for id_i in ids:
      data = id2data[id_i]
      misssing = find_missing_dates(data.mess_datum)
      if missing:
          print("For station_id = %d following days are missing:" % id_i)
          print(missing)
      else:
          print("For station_id = %d there are no missing days." % id_i)
  \<close>
  The loop runs at the top level of the notebook, so its variables are globals of the
  kernel: a name is unbound (\<open>None\<close>) or bound to a value, and reading an unbound name
  raises \<^verbatim>\<open>NameError\<close>. No cell of the notebook assigns \<^verbatim>\<open>missing\<close> at the top level; the
  value it has when the loop starts is whatever the kernel holds. What \<^verbatim>\<open>print\<close> writes is
  collected in \<open>stdout\<close>. A list is true when it is not empty.
\<close>

datatype printed = Text string | Dates "date list"

record 'v globals =
  id_i :: "int option"
  data :: "'v dataframe option"
  misssing :: "date list option"
  missing :: "date list option"
  stdout :: "printed list"

definition truthy :: "'a list \<Rightarrow> bool" where
  "truthy xs = (xs \<noteq> [])"

definition missing_header :: "int \<Rightarrow> string" where
  "missing_header i = ''For station_id = '' @ str i @ '' following days are missing:''"

definition no_missing_line :: "int \<Rightarrow> string" where
  "no_missing_line i = ''For station_id = '' @ str i @ '' there are no missing days.''"

definition print :: "printed \<Rightarrow> 'v globals \<Rightarrow> 'v globals" where
  "print x g = g\<lparr>stdout := stdout g @ [x]\<rparr>"

fun report_loop ::
  "int list \<Rightarrow> (int, 'v dataframe) dict \<Rightarrow> 'v globals \<Rightarrow> unit result \<times> 'v globals" where
  "report_loop [] id2data g = (Inr (), g)"
| "report_loop (i # ids) id2data g =
     (let g1 = g\<lparr>id_i := Some i\<rparr>
      in case dict_getitem id2data i of
           Inl e \<Rightarrow> (Inl e, g1)
         | Inr df \<Rightarrow>
             (let g2 = g1\<lparr>data := Some df\<rparr>
              in case find_missing_dates (mess_datum df) of
                   Inl e \<Rightarrow> (Inl e, g2)
                 | Inr m \<Rightarrow>
                     (let g3 = g2\<lparr>misssing := Some m\<rparr>
                      in case missing g3 of
                           None \<Rightarrow> (Inl NameError, g3)
                         | Some v \<Rightarrow>
                             if truthy v
                             then report_loop ids id2data
                                    (print (Dates v) (print (Text (missing_header i)) g3))
                             else report_loop ids id2data
                                    (print (Text (no_missing_line i)) g3))))"

section \<open>Properties of the gap checker\<close>

lemma subscript_first: "xs \<noteq> [] \<Longrightarrow> subscript xs 0 = Inr (hd xs)"
  by (cases xs) (simp_all add: subscript_def)

lemma subscript_last: "xs \<noteq> [] \<Longrightarrow> subscript xs (- 1) = Inr (last xs)"
proof -
  assume ne: "xs \<noteq> []"
  then have "0 < length xs" by simp
  then have "nat (- 1 + int (length xs)) = length xs - 1" by linarith
  with ne show ?thesis
    by (simp add: subscript_def last_conv_nth)
qed

text \<open>The constructed range is the half-open interval from \<open>start\<close> to \<open>end\<close>.\<close>

lemma completed_dates_range:
  "set (map (\<lambda>x. date_add start (timedelta x)) (range_py (days (date_sub end' start))))
     = {start..<end'}"
proof -
  have "(\<lambda>x. start + x) ` {0..end' - start - 1} = {start..<end'}"
  proof (rule set_eqI)
    fix d
    show "d \<in> (\<lambda>x. start + x) ` {0..end' - start - 1} \<longleftrightarrow> d \<in> {start..<end'}"
    proof
      assume "d \<in> (\<lambda>x. start + x) ` {0..end' - start - 1}"
      then show "d \<in> {start..<end'}" by auto
    next
      assume "d \<in> {start..<end'}"
      then have "d = start + (d - start)" and "d - start \<in> {0..end' - start - 1}" by auto
      then show "d \<in> (\<lambda>x. start + x) ` {0..end' - start - 1}" by (rule image_eqI)
    qed
  qed
  then show ?thesis
    by (simp add: range_py_def date_add_def date_sub_def)
qed

text \<open>
  What the code computes on a non-empty input: the supplied dates that lie outside the
  half-open range, in ascending order and without repetition.
\<close>

lemma find_missing_dates_eq:
  assumes "dates \<noteq> []"
  shows "find_missing_dates dates =
           Inr (sorted_list_of_set (set dates - {hd dates..<last dates}))"
  using assms
  by (simp add: find_missing_dates_def subscript_first subscript_last completed_dates_range
      del: set_map)

text \<open>
  On a series that holds every date from its first to its last one, the range covers all
  but the last date, and the last date is what the code returns.
\<close>

lemma gap_free_series_returns_last:
  assumes "dates \<noteq> []" and "set dates = {hd dates..last dates}"
  shows "find_missing_dates dates = Inr [last dates]"
proof -
  have "hd dates \<in> set dates" using assms(1) by simp
  then have "hd dates \<le> last dates" using assms(2) by simp
  then have "{hd dates..last dates} - {hd dates..<last dates} = {last dates}" by auto
  then have "set dates - {hd dates..<last dates} = {last dates}" using assms(2) by simp
  then show ?thesis using assms(1) by (simp add: find_missing_dates_eq)
qed

text \<open>
  C1. The claim: on a non-empty input the gap checker returns the sorted difference of the
  complete range from the first date up to but not including the last one and the supplied
  dates. The code subtracts in the other direction: for the series 2020-01-01, 2020-01-03
  it returns the supplied date 2020-01-03, where the claimed difference is the absent date
  2020-01-02.
\<close>

theorem find_missing_dates_not_range_minus_dates:
  "find_missing_dates [ymd 2020 1 1, ymd 2020 1 3] = Inr [ymd 2020 1 3]
   \<and> spec_find_missing_dates [ymd 2020 1 1, ymd 2020 1 3] = Inr [ymd 2020 1 2]"
  by code_simp

text \<open>
  C2. The claim: a gap-free ascending series gives an empty result. For the gap-free series
  2020-01-01, 2020-01-02, 2020-01-03 the code returns the last date.
\<close>

theorem find_missing_dates_gap_free_series:
  "find_missing_dates [ymd 2020 1 1, ymd 2020 1 2, ymd 2020 1 3] = Inr [ymd 2020 1 3]"
  by code_simp

text \<open>
  C3. The claim: for the series from 2020-01-01 to 2020-01-10 without 2020-01-05 the result
  is the list of 2020-01-05 alone. The code returns the list of 2020-01-10 alone.
\<close>

theorem find_missing_dates_january_series:
  "find_missing_dates
     [ymd 2020 1 1, ymd 2020 1 2, ymd 2020 1 3, ymd 2020 1 4, ymd 2020 1 6,
      ymd 2020 1 7, ymd 2020 1 8, ymd 2020 1 9, ymd 2020 1 10]
   = Inr [ymd 2020 1 10]"
  by code_simp

text \<open>
  C4. The claim: the result never contains the last date of the series. For the series
  2020-03-01, 2020-03-02, 2020-03-05 the result of the code is the last date.
\<close>

theorem find_missing_dates_returns_end:
  "find_missing_dates [ymd 2020 3 1, ymd 2020 3 2, ymd 2020 3 5] = Inr [ymd 2020 3 5]"
  by code_simp

text \<open>
  C5. On the empty series the gap checker raises \<^verbatim>\<open>IndexError\<close> at the access to the first
  element, and the reporting loop, which does not catch it, ends with that exception at
  the first station whose series is empty.
\<close>

theorem find_missing_dates_empty_raises:
  "find_missing_dates [] = Inl IndexError
   \<and> fst (report_loop (i # ids) ((i, \<lparr>columns = cs, rows = []\<rparr>) # id2data) g)
       = Inl IndexError"
  by (simp add: find_missing_dates_def subscript_def dict_getitem_def mess_datum_def)

text \<open>
  C10. On every non-empty series the gap checker returns a list whose dates all belong to
  the series, and the last date of the series is one of them, so the list is not empty.
  This holds for every non-empty series, hence for the ascending ones whose last date is
  after the first.
\<close>

theorem find_missing_dates_returns_supplied_dates:
  assumes "dates \<noteq> []"
  shows "\<exists>r. find_missing_dates dates = Inr r \<and> set r \<subseteq> set dates
            \<and> last dates \<in> set r \<and> r \<noteq> []"
proof -
  let ?m = "set dates - {hd dates..<last dates}"
  let ?r = "sorted_list_of_set ?m"
  have fin: "finite ?m" by simp
  have r: "find_missing_dates dates = Inr ?r"
    using assms by (rule find_missing_dates_eq)
  have sub: "set ?r \<subseteq> set dates" using fin by auto
  have "last dates \<in> set dates" using assms by simp
  then have mem: "last dates \<in> set ?r" using fin by simp
  then have "?r \<noteq> []" by auto
  with r sub mem show ?thesis by blast
qed

theorem find_missing_dates_returns_supplied_dates_witness:
  "[ymd 2020 1 1, ymd 2020 1 2, ymd 2020 1 4] \<noteq> []
   \<and> (\<exists>r. find_missing_dates [ymd 2020 1 1, ymd 2020 1 2, ymd 2020 1 4] = Inr r
          \<and> set r \<subseteq> set [ymd 2020 1 1, ymd 2020 1 2, ymd 2020 1 4]
          \<and> last [ymd 2020 1 1, ymd 2020 1 2, ymd 2020 1 4] \<in> set r \<and> r \<noteq> [])"
  using find_missing_dates_returns_supplied_dates [of "[ymd 2020 1 1, ymd 2020 1 2, ymd 2020 1 4]"]
  by simp

section \<open>Properties of the exporter\<close>

text \<open>The decimal rendering of an integer determines the integer.\<close>

lemma digit_inj: "a < 10 \<Longrightarrow> b < 10 \<Longrightarrow> digit a = digit b \<Longrightarrow> a = b"
proof -
  assume a: "a < 10" and b: "b < 10" and e: "digit a = digit b"
  have d: "distinct ''0123456789''" by simp
  have "a < length ''0123456789''" "b < length ''0123456789''" using a b by simp_all
  with d e show "a = b" unfolding digit_def by (simp only: nth_eq_iff_index_eq)
qed

lemma digit_not_minus: "a < 10 \<Longrightarrow> digit a \<noteq> CHR ''-''"
proof -
  assume "a < 10"
  then have "a < length ''0123456789''" by simp
  then have "''0123456789'' ! a \<in> set ''0123456789''" by (rule nth_mem)
  then show ?thesis unfolding digit_def by auto
qed

lemma str_nat_not_Nil: "str_nat n \<noteq> []"
  by (subst str_nat.simps) simp

lemma hd_str_nat: "hd (str_nat n) \<noteq> CHR ''-''"
proof (induction n rule: str_nat.induct)
  case (1 n)
  show ?case
  proof (cases "n < 10")
    case True
    then show ?thesis by (subst str_nat.simps) (simp add: digit_not_minus)
  next
    case False
    with 1 show ?thesis by (subst str_nat.simps) (simp add: str_nat_not_Nil)
  qed
qed

lemma str_nat_inj: "str_nat n = str_nat m \<Longrightarrow> n = m"
proof (induction n arbitrary: m rule: str_nat.induct)
  case (1 n)
  note eq = \<open>str_nat n = str_nat m\<close>
  show ?case
  proof (cases "n < 10")
    case n: True
    show ?thesis
    proof (cases "m < 10")
      case True
      with n eq show ?thesis by (simp add: str_nat.simps [of n] str_nat.simps [of m] digit_inj)
    next
      case False
      with n eq show ?thesis
        by (simp add: str_nat.simps [of n] str_nat.simps [of m] str_nat_not_Nil
            str_nat_not_Nil [THEN not_sym])
    qed
  next
    case n: False
    show ?thesis
    proof (cases "m < 10")
      case True
      with n eq show ?thesis
        by (simp add: str_nat.simps [of n] str_nat.simps [of m] str_nat_not_Nil
            str_nat_not_Nil [THEN not_sym])
    next
      case False
      with n eq have q: "str_nat (n div 10) = str_nat (m div 10)"
        and r: "digit (n mod 10) = digit (m mod 10)"
        by (simp_all add: str_nat.simps [of n] str_nat.simps [of m])
      from n q have "n div 10 = m div 10" by (rule "1.IH")
      moreover from r have "n mod 10 = m mod 10" by (simp add: digit_inj)
      ultimately show ?thesis by (metis div_mult_mod_eq)
    qed
  qed
qed

lemma str_inj: "str i = str j \<Longrightarrow> i = j"
proof -
  assume eq: "str i = str j"
  have neg: "CHR ''-'' # str_nat a \<noteq> str_nat b" for a b
    using hd_str_nat [of b] by (metis list.sel(1))
  show ?thesis
  proof (cases "i < 0")
    case i: True
    show ?thesis
    proof (cases "j < 0")
      case True
      with i eq have "nat (- i) = nat (- j)" by (simp add: str_def str_nat_inj)
      with i True show ?thesis by simp
    next
      case False
      with i eq neg show ?thesis by (simp add: str_def)
    qed
  next
    case i: False
    show ?thesis
    proof (cases "j < 0")
      case True
      with i eq neg [of "nat (- j)" "nat i"] show ?thesis by (simp add: str_def)
    next
      case False
      with i eq have "nat i = nat j" by (simp add: str_def str_nat_inj)
      with i False show ?thesis by simp
    qed
  qed
qed

lemma station_paths_distinct:
  "distinct ks \<Longrightarrow> distinct (map (\<lambda>k. path @ ''station_'' @ str k) ks)"
  by (simp add: distinct_map inj_on_def str_inj)

lemma map_upd_add_commute: "a \<notin> dom n \<Longrightarrow> m(a \<mapsto> b) ++ n = (m ++ n)(a \<mapsto> b)"
  by (rule ext) (auto simp: map_add_def split: option.splits)

lemma to_csv_ok:
  "can_write fs p \<Longrightarrow>
   to_csv df p sep cols ix fs =
     (Inr (), fs\<lparr>files := (files fs)(p \<mapsto>
        \<lparr>delimiter = sep, header = Some cols, index_column = ix, records = rows df\<rparr>)\<rparr>)"
  by (simp add: to_csv_def)

text \<open>A write that fails ends the exporter with the exception; nothing is retried.\<close>

lemma save_data_loop_write_fails:
  assumes "map_of datadict k = Some df"
    and "\<not> can_write fs (path @ ''station_'' @ str k)"
  shows "save_data_loop (k # ks) datadict path fs = (Inl IOError, fs)"
  using assms by (simp add: dict_getitem_def to_csv_def)

lemma save_data_loop_writes:
  assumes "distinct ks"
    and "\<forall>k\<in>set ks. \<exists>df. map_of datadict k = Some df"
    and "\<forall>k\<in>set ks. can_write fs (path @ ''station_'' @ str k)"
  shows "save_data_loop ks datadict path fs =
           (Inr (), fs\<lparr>files := files fs ++ map_of (map (\<lambda>k. (path @ ''station_'' @ str k,
               \<lparr>delimiter = '';'', header = Some (columns (the (map_of datadict k))),
                index_column = False, records = rows (the (map_of datadict k))\<rparr>)) ks)\<rparr>)"
proof -
  define p where "p = (\<lambda>k. path @ ''station_'' @ str k)"
  define c where "c = (\<lambda>k. \<lparr>delimiter = '';'', header = Some (columns (the (map_of datadict k))),
                index_column = False, records = rows (the (map_of datadict k))\<rparr>)"
  have "distinct ks \<Longrightarrow> \<forall>k\<in>set ks. \<exists>df. map_of datadict k = Some df \<Longrightarrow>
        \<forall>k\<in>set ks. can_write fs (p k) \<Longrightarrow>
        save_data_loop ks datadict path fs
          = (Inr (), fs\<lparr>files := files fs ++ map_of (map (\<lambda>k. (p k, c k)) ks)\<rparr>)"
  proof (induction ks arbitrary: fs)
    case Nil
    then show ?case by simp
  next
    case (Cons k ks)
    define fs1 where "fs1 = fs\<lparr>files := (files fs)(p k \<mapsto> c k)\<rparr>"
    define M where "M = map_of (map (\<lambda>k. (p k, c k)) ks)"
    from Cons.prems obtain df where df: "map_of datadict k = Some df" by auto
    have w: "can_write fs (p k)" using Cons.prems by simp
    have step: "save_data_loop (k # ks) datadict path fs = save_data_loop ks datadict path fs1"
      using df w by (simp add: dict_getitem_def to_csv_ok p_def c_def fs1_def)
    have "\<forall>k\<in>set ks. can_write fs1 (p k)" using Cons.prems by (simp add: fs1_def)
    with Cons.prems
    have ih: "save_data_loop ks datadict path fs1 = (Inr (), fs1\<lparr>files := files fs1 ++ M\<rparr>)"
      unfolding M_def by (intro Cons.IH) simp_all
    have "distinct (map p (k # ks))"
      using Cons.prems(1) unfolding p_def by (rule station_paths_distinct)
    then have "p k \<notin> p ` set ks" by simp
    moreover have "dom M = p ` set ks"
      by (simp add: M_def dom_map_of_conv_image_fst image_image)
    ultimately have "p k \<notin> dom M" by simp
    then have "(files fs)(p k \<mapsto> c k) ++ M = (files fs ++ M)(p k \<mapsto> c k)"
      by (rule map_upd_add_commute)
    also have "\<dots> = files fs ++ map_of (map (\<lambda>k. (p k, c k)) (k # ks))"
      by (simp add: M_def)
    finally have fin: "fs1\<lparr>files := files fs1 ++ M\<rparr>
        = fs\<lparr>files := files fs ++ map_of (map (\<lambda>k. (p k, c k)) (k # ks))\<rparr>"
      by (simp add: fs1_def)
    show ?case by (simp only: step ih fin)
  qed
  with assms show ?thesis by (simp add: p_def c_def)
qed

text \<open>Looking every key of a \<^verbatim>\<open>dict\<close> up gives back its items.\<close>

lemma dict_items:
  "distinct (map fst d) \<Longrightarrow>
   map (\<lambda>k. (f k, g (the (map_of d k)))) (map fst d) = map (\<lambda>(k, v). (f k, g v)) d"
  by (induction d) (auto simp: rev_image_eqI)

text \<open>
  C6. For a mapping (a \<^verbatim>\<open>dict\<close>: its keys are pairwise different) and a file system where
  each of the writes succeeds, the exporter returns \<^verbatim>\<open>None\<close> and leaves the file system
  changed at exactly the paths \<open>path @ ''station_'' @ str k\<close> of the keys \<open>k\<close>: at each
  of them is the file of the series of \<open>k\<close>, delimited by a semicolon, with the column
  names as header row and without index column. The paths of different keys differ, so
  there is one file per key.
\<close>

theorem save_data_one_file_per_station:
  assumes "distinct (dict_keys datadict)"
    and "\<forall>k\<in>set (dict_keys datadict). can_write fs (path @ ''station_'' @ str k)"
  shows "save_data datadict path fs =
           (Inr (), fs\<lparr>files := files fs ++ map_of (map (\<lambda>(k, df). (path @ ''station_'' @ str k,
               \<lparr>delimiter = '';'', header = Some (columns df), index_column = False,
                records = rows df\<rparr>)) datadict)\<rparr>)
         \<and> distinct (map (\<lambda>k. path @ ''station_'' @ str k) (dict_keys datadict))"
proof
  let ?ks = "dict_keys datadict"
  have "\<forall>k\<in>set ?ks. \<exists>df. map_of datadict k = Some df"
    by (auto simp: dict_keys_def dest!: weak_map_of_SomeI)
  with assms have "save_data_loop ?ks datadict path fs =
           (Inr (), fs\<lparr>files := files fs ++ map_of (map (\<lambda>k. (path @ ''station_'' @ str k,
               \<lparr>delimiter = '';'', header = Some (columns (the (map_of datadict k))),
                index_column = False, records = rows (the (map_of datadict k))\<rparr>)) ?ks)\<rparr>)"
    by (intro save_data_loop_writes)
  moreover have "map (\<lambda>k. (path @ ''station_'' @ str k,
               \<lparr>delimiter = '';'', header = Some (columns (the (map_of datadict k))),
                index_column = False, records = rows (the (map_of datadict k))\<rparr>)) ?ks
     = map (\<lambda>(k, df). (path @ ''station_'' @ str k,
               \<lparr>delimiter = '';'', header = Some (columns df), index_column = False,
                records = rows df\<rparr>)) datadict"
    using assms(1) unfolding dict_keys_def
    by (rule dict_items [where g = "\<lambda>df. \<lparr>delimiter = '';'', header = Some (columns df),
          index_column = False, records = rows df\<rparr>"])
  ultimately show "save_data datadict path fs =
           (Inr (), fs\<lparr>files := files fs ++ map_of (map (\<lambda>(k, df). (path @ ''station_'' @ str k,
               \<lparr>delimiter = '';'', header = Some (columns df), index_column = False,
                records = rows df\<rparr>)) datadict)\<rparr>)"
    by (simp add: save_data_def)
  show "distinct (map (\<lambda>k. path @ ''station_'' @ str k) ?ks)"
    using assms(1) by (rule station_paths_distinct)
qed

theorem save_data_one_file_per_station_witness:
  "(let datadict =
          [(395, \<lparr>columns = [''mess_datum'', ''tmk''],
                  rows = [(ymd 2020 1 1, [3::int]), (ymd 2020 1 3, [4])]\<rparr>),
           (399, \<lparr>columns = [''mess_datum'', ''tmk''],
                  rows = [(ymd 2020 1 1, [5]), (ymd 2020 1 2, [6])]\<rparr>)];
        fs = \<lparr>files = Map.empty, can_write = (\<lambda>p. take 7 p = ''./data/'')\<rparr>;
        fs' = snd (save_data datadict ''./data/'' fs)
    in distinct (dict_keys datadict)
       \<and> list_all (\<lambda>k. can_write fs (''./data/'' @ ''station_'' @ str k)) (dict_keys datadict)
       \<and> fst (save_data datadict ''./data/'' fs) = Inr ()
       \<and> files fs' ''./data/station_395''
           = Some \<lparr>delimiter = '';'', header = Some [''mess_datum'', ''tmk''],
                   index_column = False,
                   records = [(ymd 2020 1 1, [3]), (ymd 2020 1 3, [4])]\<rparr>
       \<and> files fs' ''./data/station_399''
           = Some \<lparr>delimiter = '';'', header = Some [''mess_datum'', ''tmk''],
                   index_column = False,
                   records = [(ymd 2020 1 1, [5]), (ymd 2020 1 2, [6])]\<rparr>
       \<and> dom (files fs') = {''./data/station_395'', ''./data/station_399''})"
proof -
  let ?D = "[(395::int, \<lparr>columns = [''mess_datum'', ''tmk''],
                  rows = [(ymd 2020 1 1, [3::int]), (ymd 2020 1 3, [4])]\<rparr>),
           (399, \<lparr>columns = [''mess_datum'', ''tmk''],
                  rows = [(ymd 2020 1 1, [5]), (ymd 2020 1 2, [6])]\<rparr>)]"
  let ?F = "\<lparr>files = Map.empty, can_write = (\<lambda>p. take 7 p = ''./data/'')\<rparr> :: int filesystem"
  have d: "distinct (dict_keys ?D)"
    by (simp add: dict_keys_def)
  have w: "\<forall>k\<in>set (dict_keys ?D). can_write ?F (''./data/'' @ ''station_'' @ str k)"
    by (simp add: dict_keys_def)
  have s: "str 395 = ''395''" "str 399 = ''399''"
    by (simp_all add: str_def str_nat.simps digit_def)
  note run = save_data_one_file_per_station [OF d w, THEN conjunct1]
  show ?thesis
    unfolding Let_def run using d by (simp add: dict_keys_def s)
qed

text \<open>
  C7. On the empty mapping the exporter returns \<^verbatim>\<open>None\<close> without raising, whatever the
  file system lets write, and the file system is as before.
\<close>

theorem save_data_empty_mapping: "save_data [] path fs = (Inr (), fs)"
  by (simp add: save_data_def dict_keys_def)

section \<open>Properties of the reporting loop\<close>

lemma report_loop_Cons_cases:
  "report_loop (i # ids) id2data g =
     (case dict_getitem id2data i of
        Inl e \<Rightarrow> (Inl e, g\<lparr>id_i := Some i\<rparr>)
      | Inr df \<Rightarrow>
         (case find_missing_dates (mess_datum df) of
            Inl e \<Rightarrow> (Inl e, g\<lparr>id_i := Some i, data := Some df\<rparr>)
          | Inr m \<Rightarrow>
             (case missing g of
                None \<Rightarrow> (Inl NameError, g\<lparr>id_i := Some i, data := Some df, misssing := Some m\<rparr>)
              | Some v \<Rightarrow>
                 if truthy v
                 then report_loop ids id2data
                        (g\<lparr>id_i := Some i, data := Some df, misssing := Some m,
                           stdout := stdout g @ [Text (missing_header i), Dates v]\<rparr>)
                 else report_loop ids id2data
                        (g\<lparr>id_i := Some i, data := Some df, misssing := Some m,
                           stdout := stdout g @ [Text (no_missing_line i)]\<rparr>))))"
  by (simp add: print_def Let_def split: sum.splits option.splits)

lemma report_loop_keeps_missing:
  "missing (snd (report_loop ids id2data g)) = missing g"
proof (induction ids arbitrary: g)
  case Nil
  show ?case by simp
next
  case (Cons i ids)
  show ?case
    by (simp only: report_loop_Cons_cases) (simp add: Cons.IH split: sum.splits option.splits)
qed

text \<open>
  The test reads the value \<^verbatim>\<open>missing\<close> had before the loop: were it a non-empty list, the
  first branch would be taken, and that list printed, also for a series without gaps.
\<close>

lemma report_loop_stale_missing:
  assumes "map_of id2data i = Some df" and "mess_datum df \<noteq> []"
    and "missing g = Some v" and "v \<noteq> []"
  shows "stdout (snd (report_loop [i] id2data g))
           = stdout g @ [Text (missing_header i), Dates v]"
proof -
  from assms(2) obtain m where "find_missing_dates (mess_datum df) = Inr m"
    by (simp add: find_missing_dates_eq)
  with assms show ?thesis
    by (simp add: dict_getitem_def truthy_def print_def)
qed

text \<open>
  C9. The loop assigns \<^verbatim>\<open>misssing\<close> and tests \<^verbatim>\<open>missing\<close>, which it never assigns, so
  the test reads the value \<^verbatim>\<open>missing\<close> had when the loop started. Amended: when \<^verbatim>\<open>missing\<close>
  is unbound at that point, or bound to the empty list as in the recorded run, the branch
  that prints the missing dates is not taken for any station, whatever the series are:
  all that the loop prints are the lines of the other branch, for the stations reached
  before it ends, and \<^verbatim>\<open>missing\<close> stays as it was.
\<close>

theorem report_loop_never_prints_missing:
  assumes "missing g = None \<or> missing g = Some []"
  shows "(\<exists>n. stdout (snd (report_loop ids id2data g))
               = stdout g @ map (\<lambda>i. Text (no_missing_line i)) (take n ids))
         \<and> missing (snd (report_loop ids id2data g)) = missing g"
proof -
  have "\<exists>n. stdout (snd (report_loop ids id2data g))
               = stdout g @ map (\<lambda>i. Text (no_missing_line i)) (take n ids)"
    using assms
  proof (induction ids arbitrary: g)
    case Nil
    show ?case by simp
  next
    case (Cons i ids)
    let ?line = "\<lambda>i. Text (no_missing_line i)"
    have stop: "\<exists>n. stdout g = stdout g @ map ?line (take n (i # ids))"
      by (rule exI [of _ 0]) simp
    show ?case
    proof (cases "dict_getitem id2data i")
      case (Inl e)
      with stop show ?thesis by (simp add: report_loop_Cons_cases)
    next
      case df: (Inr df)
      show ?thesis
      proof (cases "find_missing_dates (mess_datum df)")
        case (Inl e)
        with df stop show ?thesis by (simp add: report_loop_Cons_cases)
      next
        case m: (Inr m)
        from Cons.prems show ?thesis
        proof
          assume "missing g = None"
          with df m stop show ?thesis by (simp add: report_loop_Cons_cases)
        next
          assume s: "missing g = Some []"
          define g' where "g' = g\<lparr>id_i := Some i, data := Some df, misssing := Some m,
                           stdout := stdout g @ [?line i]\<rparr>"
          have run: "report_loop (i # ids) id2data g = report_loop ids id2data g'"
            using df m s by (simp add: print_def truthy_def g'_def)
          have "missing g' = None \<or> missing g' = Some []" using s by (simp add: g'_def)
          then obtain n where
            "stdout (snd (report_loop ids id2data g')) = stdout g' @ map ?line (take n ids)"
            using Cons.IH by blast
          moreover have "stdout g' = stdout g @ [?line i]" by (simp add: g'_def)
          ultimately have "stdout (snd (report_loop (i # ids) id2data g))
                       = stdout g @ map ?line (take (Suc n) (i # ids))"
            by (simp only: run) simp
          then show ?thesis by (rule exI)
        qed
      qed
    qed
  qed
  then show ?thesis by (simp add: report_loop_keeps_missing)
qed

theorem report_loop_never_prints_missing_witness:
  "(missing (\<lparr>id_i = None, data = None, misssing = None, missing = Some [], stdout = []\<rparr>
              :: int globals) = None
      \<or> missing (\<lparr>id_i = None, data = None, misssing = None, missing = Some [], stdout = []\<rparr>
              :: int globals) = Some [])
   \<and> (\<exists>n. stdout (snd (report_loop [395, 399]
          [(395, \<lparr>columns = [''mess_datum'', ''tmk''],
                  rows = [(ymd 2020 1 1, [3::int]), (ymd 2020 1 3, [4])]\<rparr>),
           (399, \<lparr>columns = [''mess_datum'', ''tmk''],
                  rows = [(ymd 2020 1 1, [5]), (ymd 2020 1 2, [6])]\<rparr>)]
          \<lparr>id_i = None, data = None, misssing = None, missing = Some [], stdout = []\<rparr>))
        = [] @ map (\<lambda>i. Text (no_missing_line i)) (take n [395, 399]))
   \<and> stdout (snd (report_loop [395, 399]
          [(395, \<lparr>columns = [''mess_datum'', ''tmk''],
                  rows = [(ymd 2020 1 1, [3::int]), (ymd 2020 1 3, [4])]\<rparr>),
           (399, \<lparr>columns = [''mess_datum'', ''tmk''],
                  rows = [(ymd 2020 1 1, [5]), (ymd 2020 1 2, [6])]\<rparr>)]
          \<lparr>id_i = None, data = None, misssing = None, missing = Some [], stdout = []\<rparr>))
     = [Text ''For station_id = 395 there are no missing days.'',
        Text ''For station_id = 399 there are no missing days.'']"
proof -
  let ?g = "\<lparr>id_i = None, data = None, misssing = None, missing = Some [], stdout = []\<rparr>
              :: int globals"
  let ?d = "[(395, \<lparr>columns = [''mess_datum'', ''tmk''],
                  rows = [(ymd 2020 1 1, [3::int]), (ymd 2020 1 3, [4])]\<rparr>),
           (399, \<lparr>columns = [''mess_datum'', ''tmk''],
                  rows = [(ymd 2020 1 1, [5]), (ymd 2020 1 2, [6])]\<rparr>)]"
  have h: "missing ?g = None \<or> missing ?g = Some []" by simp
  from report_loop_never_prints_missing [OF h, of "[395, 399]" ?d]
  have a: "\<exists>n. stdout (snd (report_loop [395, 399] ?d ?g))
             = [] @ map (\<lambda>i. Text (no_missing_line i)) (take n [395, 399])"
    by simp
  have b: "stdout (snd (report_loop [395, 399] ?d ?g))
     = [Text ''For station_id = 395 there are no missing days.'',
        Text ''For station_id = 399 there are no missing days.'']"
    by code_simp
  from h a b show ?thesis by blast
qed

text \<open>
  Without the condition on the value of \<^verbatim>\<open>missing\<close> at the start of the loop the branch can
  be taken: with \<^verbatim>\<open>missing\<close> left bound to a list of one date, the loop completes on a
  station whose series 2020-01-01, 2020-01-02 has no gap and prints the header of the
  missing days and that list.
\<close>

theorem report_loop_prints_stale_missing:
  "fst (report_loop [395]
          [(395, \<lparr>columns = [''mess_datum'', ''tmk''],
                  rows = [(ymd 2020 1 1, [5::int]), (ymd 2020 1 2, [6])]\<rparr>)]
          \<lparr>id_i = None, data = None, misssing = None, missing = Some [ymd 1999 9 9],
           stdout = []\<rparr>) = Inr ()
   \<and> stdout (snd (report_loop [395]
          [(395, \<lparr>columns = [''mess_datum'', ''tmk''],
                  rows = [(ymd 2020 1 1, [5::int]), (ymd 2020 1 2, [6])]\<rparr>)]
          \<lparr>id_i = None, data = None, misssing = None, missing = Some [ymd 1999 9 9],
           stdout = []\<rparr>))
     = [Text ''For station_id = 395 following days are missing:'', Dates [ymd 1999 9 9]]"
  by code_simp

end
